theory Spec2Isabelle
  imports Complex_Main "HOL-Library.AList" "HOL-Library.Char_ord" "HOL-Library.List_Lexorder"
begin

section \<open>The edge-computing task distribution layer of Ventaro AI\<close>

text \<open>
  The development embeds the scheduling core of the class \<^verbatim>\<open>VentaroEdgeComputing\<close> and
  of its helpers \<^verbatim>\<open>EdgeLoadBalancer\<close>, \<^verbatim>\<open>EdgeTaskScheduler\<close> and \<^verbatim>\<open>EdgeOptimizer\<close>.
  JavaScript numbers are idealised as reals (no rounding, no NaN, no infinities); a
  JavaScript \<^verbatim>\<open>Map\<close> whose iteration order matters is an association list in
  insertion order; an asynchronous function is evaluated on one snapshot of the state.
\<close>

subsection \<open>Data\<close>

type_synonym node_id = string

text \<open>A thrown JavaScript error: the name of its class and its message.\<close>

datatype js_error = JsError (err_name: string) (err_message: string)

text \<open>
  The values a lookup in the object literal of \<^verbatim>\<open>getPriorityValue\<close> can give: a
  number, \<^verbatim>\<open>undefined\<close>, or a member inherited from \<^verbatim>\<open>Object.prototype\<close>.
\<close>

datatype js_value = Undefined | Number int | ProtoMember string

record task_options =
  priority :: "string option"
  timeout :: nat
  retries :: nat
  nodeAffinity :: "string option"
  delay :: "nat option"

record task =
  task_id :: string
  task_type :: string
  options :: task_options
  submittedBy :: node_id
  status :: string

text \<open>The options \<^verbatim>\<open>processTaskLocally\<close> passes to \<^verbatim>\<open>queue.add\<close>.\<close>

record job_options =
  job_priority :: js_value
  job_delay :: nat
  job_timeout :: nat

text \<open>The part of a Bull queue the code reads: the jobs returned by \<^verbatim>\<open>getWaiting\<close>.\<close>

record queue_state =
  waiting :: "job_options list"

text \<open>What \<^verbatim>\<open>getNodeCapabilities\<close> returns and \<^verbatim>\<open>registerEdgeNode\<close> advertises.\<close>

record capabilities =
  ai :: "string list"
  processing :: "string list"
  protocols :: "string list"
  features :: "string list"

record node_info =
  info_id :: node_id
  address :: string
  node_capabilities :: capabilities

record mesh_client =
  node :: node_info

text \<open>An entry of \<^verbatim>\<open>EdgeLoadBalancer.nodeLoads\<close>.\<close>

record node_load =
  cpu :: real
  memory :: real
  queue :: real

record worker_info =
  worker :: nat
  worker_tasks :: nat
  worker_memory :: nat
  worker_cpu :: nat

text \<open>
  The state of one edge node, with the fields of its load balancer (\<open>nodeLoads\<close>) and
  of the environment it reads: \<open>totalmem\<close> is \<^verbatim>\<open>os.totalmem()\<close>, \<open>cpus\<close> is
  \<^verbatim>\<open>os.cpus().length\<close>, \<open>isMaster\<close> is \<^verbatim>\<open>cluster.isMaster\<close>, and \<open>nextWorkerId\<close> is
  the id the next \<^verbatim>\<open>cluster.fork()\<close> gives its worker.
\<close>

record edge_node =
  nodeId :: node_id
  cluster_enabled :: bool
  isMaster :: bool
  cpus :: nat
  nextWorkerId :: nat
  workers :: "(nat \<times> worker_info) list"
  processingQueues :: "(string \<times> queue_state) list"
  aiModels :: "string list"
  meshClients :: "(node_id \<times> mesh_client) list"
  nodeLoads :: "node_id \<rightharpoonup> node_load"
  cpuUsage :: real
  memoryUsage :: real
  totalmem :: real
  tasks :: "string \<rightharpoonup> task"

subsection \<open>The load balancer\<close>

text \<open>
  \<^verbatim>\<open>calculateNodeScore(nodeId, task)\<close>: 100 minus the load of the node, floored at 0 by
  \<^verbatim>\<open>Math.max(0, score)\<close>. A remote node with no entry in \<open>nodeLoads\<close> counts as
  50% CPU, 50% memory and an empty queue, and always pays 10 for the network. The
  memory term divides by \<^verbatim>\<open>os.totalmem()\<close>, which is positive on a running machine;
  the properties that depend on the quotient assume so.
\<close>

definition default_load :: node_load where
  "default_load = \<lparr>cpu = 50, memory = 50, queue = 0\<rparr>"

definition calculateNodeScore :: "edge_node \<Rightarrow> node_id \<Rightarrow> task \<Rightarrow> real" where
  "calculateNodeScore s n t =
     max 0
       (if n = nodeId s then
          (case map_of (processingQueues s) (task_type t) of
             Some q \<Rightarrow> 100 - cpuUsage s - (memoryUsage s / totalmem s) * 100
                         - real (length (waiting q))
           | None \<Rightarrow> 100 - cpuUsage s - (memoryUsage s / totalmem s) * 100)
        else
          (let nodeLoad = (case nodeLoads s n of Some l \<Rightarrow> l | None \<Rightarrow> default_load)
           in 100 - cpu nodeLoad - memory nodeLoad - queue nodeLoad - 10))"

text \<open>
  The loop of \<^verbatim>\<open>selectOptimalNode\<close>. Its state is the best node, the best score and
  the log of the node ids the scorer has been called with; a candidate replaces the
  best node only when its score is strictly greater.
\<close>

fun select_loop ::
  "(node_id \<Rightarrow> real) \<Rightarrow> node_id list \<Rightarrow> node_id \<times> real \<times> node_id list
     \<Rightarrow> node_id \<times> real \<times> node_id list" where
  "select_loop sc [] st = st"
| "select_loop sc (n # ns) (bestNode, bestScore, calls) =
     (let score = sc n; calls' = calls @ [n] in
      if score > bestScore then select_loop sc ns (n, score, calls')
      else select_loop sc ns (bestNode, bestScore, calls'))"

definition availableNodes :: "edge_node \<Rightarrow> node_id list" where
  "availableNodes s = map fst (meshClients s) @ [nodeId s]"

text \<open>
  \<^verbatim>\<open>selectOptimalNode(task)\<close> returns the chosen node; the second component is the
  log of scorer calls made on the way.
\<close>

definition selectOptimalNode :: "edge_node \<Rightarrow> task \<Rightarrow> node_id \<times> node_id list" where
  "selectOptimalNode s t =
     (let sc = (\<lambda>n. calculateNodeScore s n t);
          bestNode = nodeId s;
          bestScore = sc (nodeId s);
          r = select_loop sc (availableNodes s) (bestNode, bestScore, [nodeId s])
      in (fst r, snd (snd r)))"

subsection \<open>The scheduler\<close>

text \<open>
  \<^verbatim>\<open>if (task.options.nodeAffinity)\<close>: an absent affinity and the empty string are
  falsy, every other string is truthy.
\<close>

fun truthy_string :: "string option \<Rightarrow> bool" where
  "truthy_string None = False"
| "truthy_string (Some v) = (v \<noteq> [])"

text \<open>
  \<^verbatim>\<open>scheduleTask(task)\<close>. The result is how the promise settles (\<open>Inl\<close> a rejection,
  \<open>Inr\<close> the node id) together with the log of scorer calls. No path of the source
  throws.
\<close>

definition scheduleTask :: "edge_node \<Rightarrow> task \<Rightarrow> (js_error + node_id) \<times> node_id list" where
  "scheduleTask s t =
     (let affinity = nodeAffinity (options t);
          balanced = (let r = selectOptimalNode s t in (Inr (fst r), snd r))
      in if truthy_string affinity then
           (case affinity of Some a \<Rightarrow> (Inr a, []) | None \<Rightarrow> balanced)
         else balanced)"


subsection \<open>Capabilities and local placement\<close>

definition getNodeCapabilities :: "edge_node \<Rightarrow> capabilities" where
  "getNodeCapabilities s =
     \<lparr>ai = aiModels s,
      processing = map fst (processingQueues s),
      protocols = [''websocket'', ''redis'', ''http''],
      features = [''clustering'', ''mesh-networking'', ''real-time-processing'']\<rparr>"

text \<open>
  The nodes the scheduler can see are the local node and the connected mesh peers (a
  peer leaves \<open>meshClients\<close> when its socket closes). The capabilities a node
  advertises are its own \<^verbatim>\<open>getNodeCapabilities()\<close> for the local node and the
  registered \<^verbatim>\<open>node.capabilities\<close> for a peer.
\<close>

definition liveNodes :: "edge_node \<Rightarrow> node_id list" where
  "liveNodes s = nodeId s # map fst (meshClients s)"

definition advertised :: "edge_node \<Rightarrow> node_id \<Rightarrow> capabilities option" where
  "advertised s n =
     (if n = nodeId s then Some (getNodeCapabilities s)
      else map_option (\<lambda>c. node_capabilities (node c)) (map_of (meshClients s) n))"

definition capable :: "edge_node \<Rightarrow> string \<Rightarrow> node_id \<Rightarrow> bool" where
  "capable s ty n =
     (case advertised s n of Some c \<Rightarrow> ty \<in> set (processing c) | None \<Rightarrow> False)"

text \<open>
  The candidate set in the words of the specification (the source has no function of
  this name): the live nodes, local and peers, whose capability set contains the task
  type.
\<close>

definition listCandidates_spec :: "edge_node \<Rightarrow> string \<Rightarrow> node_id list" where
  "listCandidates_spec s ty = filter (capable s ty) (liveNodes s)"

subsection \<open>Priorities\<close>

text \<open>
  \<^verbatim>\<open>priorities[priority] || 5\<close>. The key of the lookup is the priority converted to
  a string (\<^verbatim>\<open>undefined\<close> gives the key \<^verbatim>\<open>"undefined"\<close>). A property that is not an
  own property of the object literal is looked up in \<^verbatim>\<open>Object.prototype\<close>, whose
  members are functions, or for \<^verbatim>\<open>__proto__\<close> the prototype object itself.
\<close>

definition priorities :: "(string \<times> int) list" where
  "priorities = [(''low'', 1), (''normal'', 5), (''high'', 10), (''critical'', 20)]"

definition object_prototype_keys :: "string list" where
  "object_prototype_keys =
     [''constructor'', ''__defineGetter__'', ''__defineSetter__'', ''hasOwnProperty'',
      ''__lookupGetter__'', ''__lookupSetter__'', ''isPrototypeOf'',
      ''propertyIsEnumerable'', ''toString'', ''valueOf'', ''__proto__'',
      ''toLocaleString'']"

definition get_property :: "(string \<times> int) list \<Rightarrow> string \<Rightarrow> js_value" where
  "get_property obj key =
     (case map_of obj key of
        Some v \<Rightarrow> Number v
      | None \<Rightarrow> if key \<in> set object_prototype_keys then ProtoMember key else Undefined)"

fun truthy :: "js_value \<Rightarrow> bool" where
  "truthy Undefined = False"
| "truthy (Number v) = (v \<noteq> 0)"
| "truthy (ProtoMember k) = True"

definition getPriorityValue :: "string option \<Rightarrow> js_value" where
  "getPriorityValue p =
     (let key = (case p of None \<Rightarrow> ''undefined'' | Some k \<Rightarrow> k);
          v = get_property priorities key
      in if truthy v then v else Number 5)"

text \<open>
  \<^verbatim>\<open>processTaskLocally(task)\<close>: throws when the local node has no queue for the type
  of the task, before it touches the task; otherwise it hands the job to the queue
  and marks the task as processing. The result is the outcome (the options passed to
  \<^verbatim>\<open>queue.add\<close>) and the task object after the call. The job id and the start time
  written to the task, and the \<^verbatim>\<open>taskStarted\<close> event, are left out.
\<close>

definition processTaskLocally :: "edge_node \<Rightarrow> task \<Rightarrow> (js_error + job_options) \<times> task" where
  "processTaskLocally s t =
     (case map_of (processingQueues s) (task_type t) of
        None \<Rightarrow> (Inl (JsError ''Error'' (''Unknown task type: '' @ task_type t)), t)
      | Some q \<Rightarrow>
          (Inr \<lparr>job_priority = getPriorityValue (priority (options t)),
                job_delay = (case delay (options t) of None \<Rightarrow> 0 | Some d \<Rightarrow> d),
                job_timeout = timeout (options t)\<rparr>,
           t\<lparr>status := ''processing''\<rparr>))"

subsection \<open>The optimizer\<close>

text \<open>
  \<^verbatim>\<open>cluster.fork()\<close> gives the new worker the id \<open>nextWorkerId\<close>; the entry stored
  for a worker carries that worker, so its \<open>worker\<close> field is its key.
  \<^verbatim>\<open>Map.set\<close> is \<open>AList.update\<close> and \<^verbatim>\<open>Map.delete\<close> is \<open>AList.delete\<close>. The worker
  to remove is the first value of the map; the guard \<open>currentWorkers > 1\<close> makes the
  map non-empty there. The signal sent by \<^verbatim>\<open>worker.kill()\<close> and the log lines are left
  out.
\<close>

definition new_worker :: "nat \<Rightarrow> worker_info" where
  "new_worker i = \<lparr>worker = i, worker_tasks = 0, worker_memory = 0, worker_cpu = 0\<rparr>"

definition optimizeResources :: "edge_node \<Rightarrow> edge_node" where
  "optimizeResources s =
     (if cluster_enabled s \<and> isMaster s then
        (let avgCpuUsage = cpuUsage s;
             currentWorkers = length (workers s);
             maxWorkers = cpus s
         in if avgCpuUsage > 80 \<and> currentWorkers < maxWorkers then
              s\<lparr>nextWorkerId := Suc (nextWorkerId s),
                workers := AList.update (nextWorkerId s) (new_worker (nextWorkerId s)) (workers s)\<rparr>
            else if avgCpuUsage < 30 \<and> currentWorkers > 1 then
              (case workers s of
                 [] \<Rightarrow> s
               | (k, workerToRemove) # rest \<Rightarrow>
                   s\<lparr>workers := AList.delete (worker workerToRemove) (workers s)\<rparr>)
            else s)
      else s)"

text \<open>
  One tick per CPU sample: \<^verbatim>\<open>collectSystemMetrics\<close> stores the sample, the timer
  then runs \<^verbatim>\<open>optimizeResources\<close>.
\<close>

fun ticks :: "real list \<Rightarrow> edge_node \<Rightarrow> edge_node" where
  "ticks [] s = s"
| "ticks (c # cs) s = ticks cs (optimizeResources (s\<lparr>cpuUsage := c\<rparr>))"

text \<open>The shape every write to \<open>workers\<close> keeps.\<close>

definition workers_wf :: "edge_node \<Rightarrow> bool" where
  "workers_wf s =
     (distinct (map fst (workers s)) \<and>
      list_all (\<lambda>(k, w). worker w = k \<and> k < nextWorkerId s) (workers s))"


subsection \<open>Characterisations used by the properties\<close>

text \<open>The first node of a list, in list order, whose score no node of the list exceeds.\<close>

definition first_max :: "(node_id \<Rightarrow> real) \<Rightarrow> node_id list \<Rightarrow> node_id option" where
  "first_max sc ns = List.find (\<lambda>n. list_all (\<lambda>k. sc k \<le> sc n) ns) ns"

text \<open>
  The readings of a snapshot are utilisations: CPU, memory and queue depth are not
  negative, and the machine has memory.
\<close>

definition nonneg_snapshot :: "edge_node \<Rightarrow> node_id \<Rightarrow> bool" where
  "nonneg_snapshot s n =
     (if n = nodeId s then 0 \<le> cpuUsage s \<and> 0 \<le> memoryUsage s \<and> 0 < totalmem s
      else (case nodeLoads s n of
              None \<Rightarrow> True
            | Some l \<Rightarrow> 0 \<le> cpu l \<and> 0 \<le> memory l \<and> 0 \<le> queue l))"

text \<open>Two snapshots agree on everything the scorer reads for node \<open>n\<close>.\<close>

definition same_readings :: "edge_node \<Rightarrow> task \<Rightarrow> edge_node \<Rightarrow> task \<Rightarrow> node_id \<Rightarrow> bool" where
  "same_readings s t s' t' n =
     (nodeId s' = nodeId s \<and> cpuUsage s' = cpuUsage s \<and> memoryUsage s' = memoryUsage s \<and>
      totalmem s' = totalmem s \<and> nodeLoads s' n = nodeLoads s n \<and>
      map_option (\<lambda>q. length (waiting q)) (map_of (processingQueues s') (task_type t')) =
      map_option (\<lambda>q. length (waiting q)) (map_of (processingQueues s) (task_type t)))"

text \<open>
  Node \<open>n\<close> is the choice by score alone: a live node whose score no live node
  exceeds, the local node whenever the local node attains that score, and otherwise
  the first peer, in the iteration order of \<open>meshClients\<close>, that attains it.
\<close>

definition chosen_by_score :: "edge_node \<Rightarrow> task \<Rightarrow> node_id \<Rightarrow> bool" where
  "chosen_by_score s t n =
     (n \<in> set (liveNodes s) \<and>
      list_all (\<lambda>k. calculateNodeScore s k t \<le> calculateNodeScore s n t) (liveNodes s) \<and>
      (if list_all (\<lambda>k. calculateNodeScore s k t \<le> calculateNodeScore s (nodeId s) t)
            (map fst (meshClients s))
       then n = nodeId s
       else first_max (\<lambda>k. calculateNodeScore s k t) (map fst (meshClients s)) = Some n))"

text \<open>The guards of the two branches of \<^verbatim>\<open>optimizeResources\<close>.\<close>

definition adds_worker :: "edge_node \<Rightarrow> bool" where
  "adds_worker s =
     (cluster_enabled s \<and> isMaster s \<and> cpuUsage s > 80 \<and> length (workers s) < cpus s)"

definition removes_worker :: "edge_node \<Rightarrow> bool" where
  "removes_worker s =
     (cluster_enabled s \<and> isMaster s \<and> cpuUsage s < 30 \<and> length (workers s) > 1)"

subsection \<open>Example configurations\<close>

text \<open>The queues \<^verbatim>\<open>initializeQueues\<close> creates, all empty.\<close>

definition queueTypes :: "string list" where
  "queueTypes =
     [''image-processing'', ''video-processing'', ''audio-processing'', ''text-processing'',
      ''ai-inference'', ''data-analysis'', ''real-time-processing'']"

definition empty_queues :: "(string \<times> queue_state) list" where
  "empty_queues = map (\<lambda>q. (q, \<lparr>waiting = []\<rparr>)) queueTypes"

text \<open>A connected peer that runs the same software and advertises the same queues.\<close>

definition peer :: "node_id \<Rightarrow> node_id \<times> mesh_client" where
  "peer n =
     (n, \<lparr>node = \<lparr>info_id = n, address = ''10.0.0.7'',
                     node_capabilities =
                       \<lparr>ai = [], processing = queueTypes,
                        protocols = [''websocket'', ''redis'', ''http''],
                        features = [''clustering'', ''mesh-networking'',
                                    ''real-time-processing'']\<rparr>\<rparr>\<rparr>)"

text \<open>
  The node \<open>edge-a\<close>: master of a cluster of two workers on four CPUs, at 10% CPU,
  using 2 of 10 units of memory, with no peer.
\<close>

definition node_alone :: edge_node where
  "node_alone =
     \<lparr>nodeId = ''edge-a'', cluster_enabled = True, isMaster = True, cpus = 4,
      nextWorkerId = 3, workers = [(1, new_worker 1), (2, new_worker 2)],
      processingQueues = empty_queues, aiModels = [], meshClients = [],
      nodeLoads = Map.empty, cpuUsage = 10, memoryUsage = 2, totalmem = 10,
      tasks = Map.empty\<rparr>"

text \<open>The same node with the peer \<open>node-b\<close>, known to be at 10% CPU and 20% memory.\<close>

definition node_with_peer :: edge_node where
  "node_with_peer =
     node_alone\<lparr>meshClients := [peer ''node-b''],
                 nodeLoads := [''node-b'' \<mapsto> \<lparr>cpu = 10, memory = 20, queue = 0\<rparr>]\<rparr>"

text \<open>
  The same node at 50% CPU with two idle peers; \<open>node-b\<close> connected before
  \<open>node-a\<close>.
\<close>

definition node_tied_peers :: edge_node where
  "node_tied_peers =
     node_alone\<lparr>cpuUsage := 50,
                 meshClients := [peer ''node-b'', peer ''node-a''],
                 nodeLoads := [''node-b'' \<mapsto> \<lparr>cpu = 0, memory = 0, queue = 0\<rparr>,
                               ''node-a'' \<mapsto> \<lparr>cpu = 0, memory = 0, queue = 0\<rparr>]\<rparr>"

text \<open>A pending task of the given type and affinity, as \<^verbatim>\<open>submitTask\<close> builds it.\<close>

definition pending_task :: "string \<Rightarrow> string option \<Rightarrow> task" where
  "pending_task ty aff =
     \<lparr>task_id = ''task_edge-a_1'', task_type = ty,
      options = \<lparr>priority = Some ''normal'', timeout = 30000, retries = 3,
                 nodeAffinity = aff, delay = None\<rparr>,
      submittedBy = ''edge-a'', status = ''pending''\<rparr>"

section \<open>Properties\<close>

subsection \<open>Auxiliary facts\<close>

lemma select_loop_calls:
  "snd (snd (select_loop sc ns (b, bs, cs))) = cs @ ns"
  by (induction ns arbitrary: b bs cs) (simp_all add: Let_def)

lemma select_loop_append:
  "select_loop sc (xs @ ys) st = select_loop sc ys (select_loop sc xs st)"
proof (induction xs arbitrary: st)
  case Nil
  show ?case by simp
next
  case (Cons x xs)
  obtain b bs cs where st: "st = (b, bs, cs)" by (cases st) auto
  show ?case unfolding st by (simp add: Let_def Cons.IH)
qed

lemma select_loop_keep:
  "\<forall>n\<in>set ns. sc n \<le> bs \<Longrightarrow> select_loop sc ns (b, bs, cs) = (b, bs, cs @ ns)"
  by (induction ns arbitrary: cs) (simp_all add: Let_def)

lemma select_loop_cong:
  "\<forall>n\<in>set ns. sc' n = sc n \<Longrightarrow> select_loop sc' ns st = select_loop sc ns st"
proof (induction ns arbitrary: st)
  case Nil
  show ?case by simp
next
  case (Cons x xs)
  obtain b bs cs where st: "st = (b, bs, cs)" by (cases st) auto
  from Cons.prems have "sc' x = sc x" and "\<forall>n\<in>set xs. sc' n = sc n" by simp_all
  then show ?case unfolding st by (simp add: Let_def Cons.IH)
qed

lemma first_max_skip:
  assumes "k \<in> set ns" and "sc n < sc k"
  shows "first_max sc (n # ns) = first_max sc ns"
proof -
  from assms have "\<not> sc k \<le> sc n" by simp
  with assms(1) have head: "\<not> list_all (\<lambda>j. sc j \<le> sc n) (n # ns)"
    by (auto simp: list_all_iff)
  have "List.find (\<lambda>m. list_all (\<lambda>j. sc j \<le> sc m) (n # ns)) ns
      = List.find (\<lambda>m. list_all (\<lambda>j. sc j \<le> sc m) ns) ns"
  proof (rule find_cong[OF refl])
    fix m assume "m \<in> set ns"
    show "list_all (\<lambda>j. sc j \<le> sc m) (n # ns) = list_all (\<lambda>j. sc j \<le> sc m) ns"
      using assms by (auto simp: list_all_iff)
  qed
  with head show ?thesis unfolding first_max_def by simp
qed

lemma first_max_head:
  "\<forall>k\<in>set ns. sc k \<le> sc n \<Longrightarrow> first_max sc (n # ns) = Some n"
  unfolding first_max_def by (simp add: list_all_iff)

lemma select_loop_improve:
  "\<exists>k\<in>set ns. bs < sc k \<Longrightarrow>
   \<exists>r. first_max sc ns = Some r \<and> bs < sc r \<and> select_loop sc ns (b, bs, cs) = (r, sc r, cs @ ns)"
proof (induction ns arbitrary: b bs cs)
  case Nil
  then show ?case by simp
next
  case (Cons n ns)
  show ?case
  proof (cases "bs < sc n")
    case True
    show ?thesis
    proof (cases "\<forall>k\<in>set ns. sc k \<le> sc n")
      case all: True
      then have "select_loop sc ns (n, sc n, cs @ [n]) = (n, sc n, (cs @ [n]) @ ns)"
        by (rule select_loop_keep)
      with True all show ?thesis by (simp add: Let_def first_max_head)
    next
      case False
      then obtain k where k: "k \<in> set ns" "sc n < sc k" by (auto simp: not_le)
      then have "\<exists>k\<in>set ns. sc n < sc k" by blast
      from Cons.IH[OF this, of n "cs @ [n]"] obtain r where
        r: "first_max sc ns = Some r" "sc n < sc r"
           "select_loop sc ns (n, sc n, cs @ [n]) = (r, sc r, (cs @ [n]) @ ns)" by blast
      from True r first_max_skip[OF k] show ?thesis by (simp add: Let_def)
    qed
  next
    case False
    with Cons.prems obtain k where k: "k \<in> set ns" "bs < sc k" by auto
    with False have nk: "sc n < sc k" by simp
    from k have "\<exists>k\<in>set ns. bs < sc k" by blast
    from Cons.IH[OF this, of b "cs @ [n]"] obtain r where
      r: "first_max sc ns = Some r" "bs < sc r"
         "select_loop sc ns (b, bs, cs @ [n]) = (r, sc r, (cs @ [n]) @ ns)" by blast
    from False r first_max_skip[OF k(1) nk] show ?thesis by (simp add: Let_def)
  qed
qed

lemma selectOptimalNode_local:
  assumes "\<forall>k\<in>set (map fst (meshClients s)). calculateNodeScore s k t \<le> calculateNodeScore s (nodeId s) t"
  shows "fst (selectOptimalNode s t) = nodeId s"
proof -
  have "\<forall>k\<in>set (availableNodes s). calculateNodeScore s k t \<le> calculateNodeScore s (nodeId s) t"
    using assms by (auto simp: availableNodes_def)
  then show ?thesis
    by (simp add: selectOptimalNode_def Let_def select_loop_keep)
qed

lemma selectOptimalNode_peer:
  assumes "\<exists>k\<in>set (map fst (meshClients s)). calculateNodeScore s (nodeId s) t < calculateNodeScore s k t"
  shows "first_max (\<lambda>n. calculateNodeScore s n t) (map fst (meshClients s)) = Some (fst (selectOptimalNode s t))
       \<and> calculateNodeScore s (nodeId s) t < calculateNodeScore s (fst (selectOptimalNode s t)) t"
proof -
  let ?sc = "\<lambda>n. calculateNodeScore s n t"
  from select_loop_improve[of "map fst (meshClients s)" "?sc (nodeId s)" ?sc "nodeId s" "[nodeId s]"] assms
  obtain r where r: "first_max ?sc (map fst (meshClients s)) = Some r" "?sc (nodeId s) < ?sc r"
    "select_loop ?sc (map fst (meshClients s)) (nodeId s, ?sc (nodeId s), [nodeId s])
       = (r, ?sc r, [nodeId s] @ map fst (meshClients s))" by blast
  then have "fst (selectOptimalNode s t) = r"
    by (simp add: selectOptimalNode_def availableNodes_def Let_def select_loop_append)
  with r show ?thesis by simp
qed

lemma selectOptimalNode_calls:
  "snd (selectOptimalNode s t) = nodeId s # availableNodes s"
  by (simp add: selectOptimalNode_def Let_def select_loop_calls)

lemma first_max_Some:
  "first_max sc ns = Some r \<Longrightarrow> r \<in> set ns \<and> (\<forall>k\<in>set ns. sc k \<le> sc r)"
  unfolding first_max_def by (auto simp: find_Some_iff list_all_iff)

lemma selectOptimalNode_live: "fst (selectOptimalNode s t) \<in> set (liveNodes s)"
proof (cases "\<forall>k\<in>set (map fst (meshClients s)). calculateNodeScore s k t \<le> calculateNodeScore s (nodeId s) t")
  case True
  then have "fst (selectOptimalNode s t) = nodeId s" by (rule selectOptimalNode_local)
  then show ?thesis by (simp add: liveNodes_def)
next
  case False
  then have "\<exists>k\<in>set (map fst (meshClients s)). calculateNodeScore s (nodeId s) t < calculateNodeScore s k t"
    by (simp add: not_le)
  from selectOptimalNode_peer[OF this] first_max_Some
  have "fst (selectOptimalNode s t) \<in> set (map fst (meshClients s))" by blast
  then show ?thesis by (simp add: liveNodes_def)
qed

lemma selectOptimalNode_maximal:
  "\<forall>n\<in>set (liveNodes s). calculateNodeScore s n t \<le> calculateNodeScore s (fst (selectOptimalNode s t)) t"
proof (cases "\<forall>k\<in>set (map fst (meshClients s)). calculateNodeScore s k t \<le> calculateNodeScore s (nodeId s) t")
  case True
  then have "fst (selectOptimalNode s t) = nodeId s" by (rule selectOptimalNode_local)
  with True show ?thesis by (simp add: liveNodes_def)
next
  case False
  then have "\<exists>k\<in>set (map fst (meshClients s)). calculateNodeScore s (nodeId s) t < calculateNodeScore s k t"
    by (simp add: not_le)
  from selectOptimalNode_peer[OF this]
  have fm: "first_max (\<lambda>n. calculateNodeScore s n t) (map fst (meshClients s)) = Some (fst (selectOptimalNode s t))"
    and lt: "calculateNodeScore s (nodeId s) t < calculateNodeScore s (fst (selectOptimalNode s t)) t"
    by simp_all
  from first_max_Some[OF fm] lt show ?thesis by (auto simp: liveNodes_def)
qed

lemma selectOptimalNode_readings:
  assumes "nodeId s' = nodeId s" and "map fst (meshClients s') = map fst (meshClients s)"
    and "\<forall>n\<in>set (liveNodes s). calculateNodeScore s' n t' = calculateNodeScore s n t"
  shows "selectOptimalNode s' t' = selectOptimalNode s t"
proof -
  have av: "availableNodes s' = availableNodes s" using assms(1,2) by (simp add: availableNodes_def)
  have "\<forall>n\<in>set (availableNodes s). calculateNodeScore s' n t' = calculateNodeScore s n t"
    using assms(3) by (auto simp: availableNodes_def liveNodes_def)
  then have "select_loop (\<lambda>n. calculateNodeScore s' n t') (availableNodes s) st
           = select_loop (\<lambda>n. calculateNodeScore s n t) (availableNodes s) st" for st
    by (rule select_loop_cong)
  moreover have "calculateNodeScore s' (nodeId s) t' = calculateNodeScore s (nodeId s) t"
    using assms(3) by (simp add: liveNodes_def)
  ultimately show ?thesis using assms(1) av by (simp add: selectOptimalNode_def Let_def)
qed


lemma processTaskLocally_unknown:
  "map_of (processingQueues s) (task_type t) = None \<Longrightarrow>
   processTaskLocally s t = (Inl (JsError ''Error'' (''Unknown task type: '' @ task_type t)), t)"
  by (simp add: processTaskLocally_def)

lemma capable_local_iff:
  "capable s ty (nodeId s) \<longleftrightarrow> map_of (processingQueues s) ty \<noteq> None"
  by (simp add: capable_def advertised_def getNodeCapabilities_def map_of_eq_None_iff)


lemma scheduleTask_affinity:
  "nodeAffinity (options t) = Some a \<Longrightarrow> a \<noteq> [] \<Longrightarrow> scheduleTask s t = (Inr a, [])"
  by (simp add: scheduleTask_def Let_def)

lemma scheduleTask_balanced:
  "\<not> truthy_string (nodeAffinity (options t)) \<Longrightarrow>
   scheduleTask s t = (Inr (fst (selectOptimalNode s t)), nodeId s # availableNodes s)"
  by (simp add: scheduleTask_def Let_def selectOptimalNode_calls)

lemma selectOptimalNode_chosen_by_score:
  "chosen_by_score s t (fst (selectOptimalNode s t))"
proof -
  let ?sc = "\<lambda>n. calculateNodeScore s n t"
  let ?peers = "map fst (meshClients s)"
  have tie: "if list_all (\<lambda>k. ?sc k \<le> ?sc (nodeId s)) ?peers
             then fst (selectOptimalNode s t) = nodeId s
             else first_max ?sc ?peers = Some (fst (selectOptimalNode s t))"
  proof (cases "list_all (\<lambda>k. ?sc k \<le> ?sc (nodeId s)) ?peers")
    case True
    then have "\<forall>k\<in>set ?peers. ?sc k \<le> ?sc (nodeId s)" by (simp add: list_all_iff)
    then have "fst (selectOptimalNode s t) = nodeId s" by (rule selectOptimalNode_local)
    with True show ?thesis by simp
  next
    case False
    then have "\<exists>k\<in>set ?peers. ?sc (nodeId s) < ?sc k"
      by (auto simp: list_all_iff not_le)
    from selectOptimalNode_peer[OF this] False show ?thesis by simp
  qed
  have "list_all (\<lambda>k. ?sc k \<le> ?sc (fst (selectOptimalNode s t))) (liveNodes s)"
    using selectOptimalNode_maximal[of s t] by (simp add: list_all_iff)
  with selectOptimalNode_live[of s t] tie show ?thesis
    unfolding chosen_by_score_def by simp
qed

lemma chosen_by_score_unique:
  "chosen_by_score s t n \<Longrightarrow> chosen_by_score s t m \<Longrightarrow> n = m"
  by (auto simp: chosen_by_score_def split: if_splits)


subsection \<open>Affinity\<close>

text \<open>
  Claim C2. A task with an explicit (non-empty) node affinity that names a live node
  whose capability set contains the type of the task is scheduled on exactly that
  node, and the scorer is never called: the log of scorer calls is empty.
\<close>

theorem scheduleTask_affinity_live_capable:
  assumes "nodeAffinity (options t) = Some a" and "a \<noteq> []"
    and "a \<in> set (liveNodes s)" and "capable s (task_type t) a"
  shows "scheduleTask s t = (Inr a, [])"
  using assms(1,2) by (rule scheduleTask_affinity)

theorem scheduleTask_affinity_live_capable_witness:
  "''node-b'' \<in> set (liveNodes node_with_peer) \<and>
   capable node_with_peer ''image-processing'' ''node-b'' \<and>
   scheduleTask node_with_peer (pending_task ''image-processing'' (Some ''node-b''))
     = (Inr ''node-b'', [])"
proof -
  let ?t = "pending_task ''image-processing'' (Some ''node-b'')"
  have a: "nodeAffinity (options ?t) = Some ''node-b''" by (simp add: pending_task_def)
  have b: "''node-b'' \<noteq> []" by simp
  have c: "''node-b'' \<in> set (liveNodes node_with_peer)"
    by (simp add: liveNodes_def node_with_peer_def peer_def node_alone_def pending_task_def empty_queues_def queueTypes_def new_worker_def)
  have d: "capable node_with_peer (task_type ?t) ''node-b''"
    by (simp add: capable_def advertised_def node_with_peer_def peer_def node_alone_def pending_task_def empty_queues_def queueTypes_def new_worker_def)
  from scheduleTask_affinity_live_capable[OF a b c d] c d show ?thesis
    by (simp add: pending_task_def)
qed

text \<open>
  Claim C3. A task whose node affinity is set is scheduled on the affinity node in
  every state of the edge node, hence also when the named node is not alive or not
  capable: no liveness or capability check is made, the promise resolves (\<open>Inr\<close>)
  and is never rejected with an error, and the scorer is not called.
\<close>

theorem scheduleTask_affinity_unchecked:
  assumes "nodeAffinity (options t) = Some a" and "a \<noteq> []"
  shows "\<forall>s. scheduleTask s t = (Inr a, [])"
  using assms by (simp add: scheduleTask_affinity)

theorem scheduleTask_affinity_unchecked_witness:
  "''node-b'' \<notin> set (liveNodes node_alone) \<and>
   \<not> capable node_alone ''image-processing'' ''node-b'' \<and>
   scheduleTask node_alone (pending_task ''image-processing'' (Some ''node-b''))
     = (Inr ''node-b'', [])"
proof -
  let ?t = "pending_task ''image-processing'' (Some ''node-b'')"
  have a: "nodeAffinity (options ?t) = Some ''node-b''" by (simp add: pending_task_def)
  have b: "''node-b'' \<noteq> []" by simp
  have c: "''node-b'' \<notin> set (liveNodes node_alone)"
    by (simp add: liveNodes_def node_alone_def pending_task_def empty_queues_def queueTypes_def new_worker_def)
  have d: "\<not> capable node_alone ''image-processing'' ''node-b''"
    by (simp add: capable_def advertised_def node_alone_def pending_task_def empty_queues_def queueTypes_def new_worker_def)
  from scheduleTask_affinity_unchecked[OF a b] c d show ?thesis by simp
qed

subsection \<open>The load score\<close>

lemma calculateNodeScore_floor: "0 \<le> calculateNodeScore s n t"
  by (simp add: calculateNodeScore_def)

lemma calculateNodeScore_cap:
  assumes "nonneg_snapshot s n"
  shows "calculateNodeScore s n t \<le> 100"
proof (cases "n = nodeId s")
  case True
  with assms have "0 \<le> cpuUsage s" "0 \<le> memoryUsage s / totalmem s * 100"
    by (simp_all add: nonneg_snapshot_def)
  with True show ?thesis
    by (simp add: calculateNodeScore_def split: option.split)
next
  case False
  with assms show ?thesis
    by (auto simp: calculateNodeScore_def nonneg_snapshot_def default_load_def Let_def
             split: option.splits)
qed

lemma calculateNodeScore_readings:
  assumes "same_readings s t s' t' n"
  shows "calculateNodeScore s' n t' = calculateNodeScore s n t"
  using assms
  by (auto simp: same_readings_def calculateNodeScore_def split: option.splits)

text \<open>
  Claim C4. The load score is never negative; it is at most 100 whenever the readings
  of the snapshot are utilisations (not negative); and it is deterministic: two
  snapshots and tasks that agree on what the scorer reads give the same score.
\<close>

theorem calculateNodeScore_deterministic_bounded:
  "0 \<le> calculateNodeScore s n t \<and>
   (nonneg_snapshot s n \<longrightarrow> calculateNodeScore s n t \<le> 100) \<and>
   (\<forall>s' t'. same_readings s t s' t' n \<longrightarrow> calculateNodeScore s' n t' = calculateNodeScore s n t)"
proof (intro conjI impI allI)
  show "0 \<le> calculateNodeScore s n t" by (rule calculateNodeScore_floor)
next
  assume "nonneg_snapshot s n"
  then show "calculateNodeScore s n t \<le> 100" by (rule calculateNodeScore_cap)
next
  fix s' t'
  assume "same_readings s t s' t' n"
  then show "calculateNodeScore s' n t' = calculateNodeScore s n t"
    by (rule calculateNodeScore_readings)
qed

theorem calculateNodeScore_deterministic_bounded_witness:
  "nonneg_snapshot node_with_peer ''node-b'' \<and>
   0 \<le> calculateNodeScore node_with_peer ''node-b'' (pending_task ''image-processing'' None) \<and>
   calculateNodeScore node_with_peer ''node-b'' (pending_task ''image-processing'' None) \<le> 100 \<and>
   same_readings node_with_peer (pending_task ''image-processing'' None)
     (node_with_peer\<lparr>aiModels := [''resnet'']\<rparr>) (pending_task ''image-processing'' (Some ''node-b''))
     ''node-b'' \<and>
   calculateNodeScore (node_with_peer\<lparr>aiModels := [''resnet'']\<rparr>) ''node-b''
       (pending_task ''image-processing'' (Some ''node-b''))
     = calculateNodeScore node_with_peer ''node-b'' (pending_task ''image-processing'' None)"
proof -
  have a: "nonneg_snapshot node_with_peer ''node-b''"
    by (simp add: nonneg_snapshot_def node_with_peer_def peer_def node_alone_def pending_task_def empty_queues_def queueTypes_def new_worker_def)
  have b: "same_readings node_with_peer (pending_task ''image-processing'' None)
     (node_with_peer\<lparr>aiModels := [''resnet'']\<rparr>) (pending_task ''image-processing'' (Some ''node-b''))
     ''node-b''"
    by (simp add: same_readings_def node_with_peer_def peer_def node_alone_def pending_task_def empty_queues_def queueTypes_def new_worker_def)
  from calculateNodeScore_deterministic_bounded
         [of node_with_peer "''node-b''" "pending_task ''image-processing'' None"] a b
  show ?thesis by blast
qed

text \<open>
  Claim C5. A local node at 10% CPU and 20% memory with an empty queue for the type of
  the task scores 70, a remote node with the same load scores 60 (it pays the network
  penalty of 10), and the local node is selected.
\<close>

theorem scenario_local_beats_remote:
  assumes "cpuUsage s = 10" and "memoryUsage s / totalmem s * 100 = 20"
    and "case map_of (processingQueues s) (task_type t) of None \<Rightarrow> True | Some q \<Rightarrow> waiting q = []"
    and "map fst (meshClients s) = [b]" and "b \<noteq> nodeId s"
    and "nodeLoads s b = Some l" and "cpu l = 10" and "memory l = 20" and "queue l = 0"
  shows "calculateNodeScore s (nodeId s) t = 70 \<and> calculateNodeScore s b t = 60 \<and>
         fst (selectOptimalNode s t) = nodeId s"
proof -
  have A: "calculateNodeScore s (nodeId s) t = 70"
    using assms(1,2,3) by (simp add: calculateNodeScore_def split: option.splits)
  have B: "calculateNodeScore s b t = 60"
    using assms(5-9) by (simp add: calculateNodeScore_def Let_def)
  have "\<forall>k\<in>set (map fst (meshClients s)). calculateNodeScore s k t \<le> calculateNodeScore s (nodeId s) t"
    using A B assms(4) by simp
  then have "fst (selectOptimalNode s t) = nodeId s" by (rule selectOptimalNode_local)
  with A B show ?thesis by simp
qed

theorem scenario_local_beats_remote_witness:
  "calculateNodeScore node_with_peer ''edge-a'' (pending_task ''image-processing'' None) = 70 \<and>
   calculateNodeScore node_with_peer ''node-b'' (pending_task ''image-processing'' None) = 60 \<and>
   fst (selectOptimalNode node_with_peer (pending_task ''image-processing'' None)) = ''edge-a''"
proof -
  let ?s = node_with_peer and ?t = "pending_task ''image-processing'' None"
  let ?l = "\<lparr>cpu = 10, memory = 20, queue = 0\<rparr> :: node_load"
  have h1: "cpuUsage ?s = 10" by (simp add: node_with_peer_def peer_def node_alone_def pending_task_def empty_queues_def queueTypes_def new_worker_def)
  have h2: "memoryUsage ?s / totalmem ?s * 100 = 20" by (simp add: node_with_peer_def peer_def node_alone_def pending_task_def empty_queues_def queueTypes_def new_worker_def)
  have h3: "case map_of (processingQueues ?s) (task_type ?t) of None \<Rightarrow> True | Some q \<Rightarrow> waiting q = []"
    by (simp add: node_with_peer_def peer_def node_alone_def pending_task_def empty_queues_def queueTypes_def new_worker_def)
  have h4: "map fst (meshClients ?s) = [''node-b'']" by (simp add: node_with_peer_def peer_def node_alone_def pending_task_def empty_queues_def queueTypes_def new_worker_def)
  have h5: "''node-b'' \<noteq> nodeId ?s" by (simp add: node_with_peer_def peer_def node_alone_def pending_task_def empty_queues_def queueTypes_def new_worker_def)
  have h6: "nodeLoads ?s ''node-b'' = Some ?l" by (simp add: node_with_peer_def peer_def node_alone_def pending_task_def empty_queues_def queueTypes_def new_worker_def)
  have n: "nodeId ?s = ''edge-a''" by (simp add: node_with_peer_def peer_def node_alone_def pending_task_def empty_queues_def queueTypes_def new_worker_def)
  from scenario_local_beats_remote[OF h1 h2 h3 h4 h5 h6] n show ?thesis by simp
qed

subsection \<open>Tasks that no node can run\<close>

text \<open>
  Claim C1 as stated fails: on a node without peers, a task of a type no queue exists
  for has an empty candidate set, and \<^verbatim>\<open>scheduleTask\<close> resolves with the local node.
\<close>

theorem scheduleTask_no_candidates_counterexample:
  "listCandidates_spec node_alone (task_type (pending_task ''model-training'' None)) = [] \<and>
   scheduleTask node_alone (pending_task ''model-training'' None)
     = (Inr ''edge-a'', [''edge-a'', ''edge-a''])"
  by (simp add: listCandidates_spec_def liveNodes_def capable_def advertised_def
        getNodeCapabilities_def scheduleTask_def selectOptimalNode_def availableNodes_def
        calculateNodeScore_def Let_def node_alone_def pending_task_def empty_queues_def queueTypes_def new_worker_def)

text \<open>
  Claim C1, amended. When no live node advertises the type of the task,
  \<^verbatim>\<open>scheduleTask\<close> does not fail. With a non-empty affinity it resolves with the
  affinity node and calls the scorer for no node. Without one it resolves with the
  node \<^verbatim>\<open>selectOptimalNode\<close> returns, after scoring the local node and every peer,
  and that node is the choice by score alone among the local node and the connected
  peers (the local node when there is no peer). Local placement of such a task fails:
  \<^verbatim>\<open>processTaskLocally\<close>, the step \<^verbatim>\<open>submitTask\<close> runs when the node returned is
  the local node, throws the plain error \<^verbatim>\<open>Unknown task type\<close> and leaves the
  task as it was, so a pending task stays pending.
\<close>

theorem scheduleTask_no_candidates:
  assumes "listCandidates_spec s (task_type t) = []"
  shows "(\<forall>a. nodeAffinity (options t) = Some a \<and> a \<noteq> [] \<longrightarrow>
            scheduleTask s t = (Inr a, [])) \<and>
         (\<not> truthy_string (nodeAffinity (options t)) \<longrightarrow>
            scheduleTask s t = (Inr (fst (selectOptimalNode s t)), nodeId s # availableNodes s) \<and>
            chosen_by_score s t (fst (selectOptimalNode s t))) \<and>
         processTaskLocally s t
           = (Inl (JsError ''Error'' (''Unknown task type: '' @ task_type t)), t)"
proof (intro conjI allI impI)
  fix a assume "nodeAffinity (options t) = Some a \<and> a \<noteq> []"
  then show "scheduleTask s t = (Inr a, [])" by (simp add: scheduleTask_affinity)
next
  assume "\<not> truthy_string (nodeAffinity (options t))"
  then show "scheduleTask s t
      = (Inr (fst (selectOptimalNode s t)), nodeId s # availableNodes s)"
    by (rule scheduleTask_balanced)
next
  show "chosen_by_score s t (fst (selectOptimalNode s t))"
    by (rule selectOptimalNode_chosen_by_score)
next
  have "\<not> capable s (task_type t) (nodeId s)"
    using assms by (auto simp: listCandidates_spec_def liveNodes_def filter_empty_conv)
  then show "processTaskLocally s t
      = (Inl (JsError ''Error'' (''Unknown task type: '' @ task_type t)), t)"
    by (simp add: capable_local_iff processTaskLocally_unknown)
qed

theorem scheduleTask_no_candidates_witness:
  "listCandidates_spec node_alone ''model-training'' = [] \<and>
   scheduleTask node_alone (pending_task ''model-training'' None)
     = (Inr ''edge-a'', [''edge-a'', ''edge-a'']) \<and>
   chosen_by_score node_alone (pending_task ''model-training'' None) ''edge-a'' \<and>
   scheduleTask node_alone (pending_task ''model-training'' (Some ''ghost''))
     = (Inr ''ghost'', []) \<and>
   processTaskLocally node_alone (pending_task ''model-training'' None)
     = (Inl (JsError ''Error'' ''Unknown task type: model-training''),
        pending_task ''model-training'' None) \<and>
   status (snd (processTaskLocally node_alone (pending_task ''model-training'' None))) = ''pending''"
proof -
  let ?t = "pending_task ''model-training'' None"
  let ?g = "pending_task ''model-training'' (Some ''ghost'')"
  have ty: "task_type ?t = ''model-training''" "task_type ?g = ''model-training''"
    by (simp_all add: pending_task_def)
  have a: "listCandidates_spec node_alone ''model-training'' = []"
    by (simp add: listCandidates_spec_def liveNodes_def capable_def advertised_def
          getNodeCapabilities_def node_alone_def empty_queues_def queueTypes_def)
  have na: "\<not> truthy_string (nodeAffinity (options ?t))" by (simp add: pending_task_def)
  have ga: "nodeAffinity (options ?g) = Some ''ghost'' \<and> ''ghost'' \<noteq> []"
    by (simp add: pending_task_def)
  have sel: "fst (selectOptimalNode node_alone ?t) = ''edge-a''"
    by (simp add: selectOptimalNode_def availableNodes_def calculateNodeScore_def Let_def
          node_alone_def)
  have av: "nodeId node_alone # availableNodes node_alone = [''edge-a'', ''edge-a'']"
    by (simp add: availableNodes_def node_alone_def)
  have st: "status ?t = ''pending''" by (simp add: pending_task_def)
  note T = scheduleTask_no_candidates[of node_alone ?t, unfolded ty, OF a]
  note G = scheduleTask_no_candidates[of node_alone ?g, unfolded ty, OF a]
  from T na have "scheduleTask node_alone ?t
       = (Inr (fst (selectOptimalNode node_alone ?t)), nodeId node_alone # availableNodes node_alone)"
    and "chosen_by_score node_alone ?t (fst (selectOptimalNode node_alone ?t))"
    and "processTaskLocally node_alone ?t
           = (Inl (JsError ''Error'' (''Unknown task type: '' @ ''model-training'')), ?t)"
    by blast+
  moreover from G ga have "scheduleTask node_alone ?g = (Inr ''ghost'', [])" by blast
  ultimately show ?thesis using a sel av st by simp
qed

subsection \<open>Capabilities\<close>




subsection \<open>Ties\<close>

text \<open>
  Claim C6 as stated fails: the peers \<open>node-a\<close> and \<open>node-b\<close> tie at the maximal
  score 90, \<open>node-a\<close> is the lexicographically lower id, and \<open>node-b\<close>, which
  connected first, is selected.
\<close>

theorem tie_break_lexicographic_counterexample:
  "calculateNodeScore node_tied_peers ''edge-a'' (pending_task ''image-processing'' None) = 30 \<and>
   calculateNodeScore node_tied_peers ''node-a'' (pending_task ''image-processing'' None) = 90 \<and>
   calculateNodeScore node_tied_peers ''node-b'' (pending_task ''image-processing'' None) = 90 \<and>
   ''node-a'' < ''node-b'' \<and>
   fst (selectOptimalNode node_tied_peers (pending_task ''image-processing'' None)) = ''node-b''"
  by (simp add: selectOptimalNode_def availableNodes_def calculateNodeScore_def Let_def
        node_tied_peers_def peer_def node_alone_def pending_task_def empty_queues_def queueTypes_def new_worker_def)

text \<open>
  Claim C6, amended. The selected node is a live node of maximal score. When the
  local node attains the maximal score it is selected (ties go to the local node);
  otherwise the selected node is the first peer, in the iteration order of
  \<open>meshClients\<close> (the order of connection), that attains the maximal score. The
  choice is a function of the local id, the order of the peers and the scores, so
  repeated calls on the same candidates choose the same node.
\<close>

theorem selectOptimalNode_tie_break:
  "fst (selectOptimalNode s t) \<in> set (liveNodes s) \<and>
   (\<forall>n\<in>set (liveNodes s).
      calculateNodeScore s n t \<le> calculateNodeScore s (fst (selectOptimalNode s t)) t) \<and>
   (if list_all (\<lambda>k. calculateNodeScore s k t \<le> calculateNodeScore s (nodeId s) t)
         (map fst (meshClients s))
    then fst (selectOptimalNode s t) = nodeId s
    else first_max (\<lambda>n. calculateNodeScore s n t) (map fst (meshClients s))
           = Some (fst (selectOptimalNode s t))) \<and>
   (\<forall>s' t'. nodeId s' = nodeId s \<and> map fst (meshClients s') = map fst (meshClients s) \<and>
            (\<forall>n\<in>set (liveNodes s). calculateNodeScore s' n t' = calculateNodeScore s n t)
      \<longrightarrow> selectOptimalNode s' t' = selectOptimalNode s t)"
proof -
  let ?sc = "\<lambda>n. calculateNodeScore s n t"
  let ?peers = "map fst (meshClients s)"
  have tie: "if list_all (\<lambda>k. ?sc k \<le> ?sc (nodeId s)) ?peers
             then fst (selectOptimalNode s t) = nodeId s
             else first_max ?sc ?peers = Some (fst (selectOptimalNode s t))"
  proof (cases "list_all (\<lambda>k. ?sc k \<le> ?sc (nodeId s)) ?peers")
    case True
    then have "\<forall>k\<in>set ?peers. ?sc k \<le> ?sc (nodeId s)" by (simp add: list_all_iff)
    then have "fst (selectOptimalNode s t) = nodeId s" by (rule selectOptimalNode_local)
    with True show ?thesis by simp
  next
    case False
    then have "\<exists>k\<in>set ?peers. ?sc (nodeId s) < ?sc k"
      by (auto simp: list_all_iff not_le)
    from selectOptimalNode_peer[OF this] False show ?thesis by simp
  qed
  have det: "\<forall>s' t'. nodeId s' = nodeId s \<and> map fst (meshClients s') = ?peers \<and>
            (\<forall>n\<in>set (liveNodes s). calculateNodeScore s' n t' = ?sc n)
      \<longrightarrow> selectOptimalNode s' t' = selectOptimalNode s t"
    using selectOptimalNode_readings by blast
  from selectOptimalNode_live[of s t] selectOptimalNode_maximal[of s t] tie det
  show ?thesis by blast
qed

theorem selectOptimalNode_tie_break_witness:
  "first_max (\<lambda>n. calculateNodeScore node_tied_peers n (pending_task ''image-processing'' None))
     [''node-b'', ''node-a''] = Some ''node-b'' \<and>
   fst (selectOptimalNode node_tied_peers (pending_task ''image-processing'' None)) = ''node-b'' \<and>
   selectOptimalNode (node_tied_peers\<lparr>aiModels := [''resnet'']\<rparr>) (pending_task ''image-processing'' None)
     = selectOptimalNode node_tied_peers (pending_task ''image-processing'' None)"
proof -
  let ?s = node_tied_peers and ?t = "pending_task ''image-processing'' None"
  let ?s' = "node_tied_peers\<lparr>aiModels := [''resnet'']\<rparr>"
  have peers: "map fst (meshClients ?s) = [''node-b'', ''node-a'']" by (simp add: node_tied_peers_def peer_def node_alone_def pending_task_def empty_queues_def queueTypes_def new_worker_def)
  have a: "\<not> list_all (\<lambda>k. calculateNodeScore ?s k ?t \<le> calculateNodeScore ?s (nodeId ?s) ?t)
             (map fst (meshClients ?s))"
    by (simp add: calculateNodeScore_def Let_def node_tied_peers_def peer_def node_alone_def pending_task_def empty_queues_def queueTypes_def new_worker_def)
  have b: "nodeId ?s' = nodeId ?s \<and> map fst (meshClients ?s') = map fst (meshClients ?s) \<and>
           (\<forall>n\<in>set (liveNodes ?s). calculateNodeScore ?s' n ?t = calculateNodeScore ?s n ?t)"
    by (simp add: calculateNodeScore_def cong: option.case_cong)
  have c: "first_max (\<lambda>n. calculateNodeScore ?s n ?t) [''node-b'', ''node-a''] = Some ''node-b''"
    by (simp add: first_max_def calculateNodeScore_def Let_def node_tied_peers_def peer_def node_alone_def pending_task_def empty_queues_def queueTypes_def new_worker_def)
  from selectOptimalNode_tie_break[of ?s ?t]
  have tie: "if list_all (\<lambda>k. calculateNodeScore ?s k ?t \<le> calculateNodeScore ?s (nodeId ?s) ?t)
         (map fst (meshClients ?s))
    then fst (selectOptimalNode ?s ?t) = nodeId ?s
    else first_max (\<lambda>n. calculateNodeScore ?s n ?t) (map fst (meshClients ?s))
           = Some (fst (selectOptimalNode ?s ?t))"
    and det: "\<forall>s' t'. nodeId s' = nodeId ?s \<and> map fst (meshClients s') = map fst (meshClients ?s) \<and>
            (\<forall>n\<in>set (liveNodes ?s). calculateNodeScore s' n t' = calculateNodeScore ?s n ?t)
      \<longrightarrow> selectOptimalNode s' t' = selectOptimalNode ?s ?t"
    by blast+
  from tie a have "first_max (\<lambda>n. calculateNodeScore ?s n ?t) (map fst (meshClients ?s))
           = Some (fst (selectOptimalNode ?s ?t))" by simp
  with c have d: "fst (selectOptimalNode ?s ?t) = ''node-b''" unfolding peers by simp
  from det b have e: "selectOptimalNode ?s' ?t = selectOptimalNode ?s ?t" by blast
  from c d e show ?thesis by simp
qed

subsection \<open>Priorities of queued jobs\<close>

lemma getPriorityValue_table:
  "getPriorityValue (Some ''low'') = Number 1 \<and> getPriorityValue (Some ''normal'') = Number 5 \<and>
   getPriorityValue (Some ''high'') = Number 10 \<and> getPriorityValue (Some ''critical'') = Number 20"
  by (simp add: getPriorityValue_def get_property_def priorities_def)

lemma getPriorityValue_undefined: "getPriorityValue None = Number 5"
  by (simp add: getPriorityValue_def get_property_def priorities_def object_prototype_keys_def)

lemma getPriorityValue_default:
  assumes "p \<notin> set (map fst priorities)" and "p \<notin> set object_prototype_keys"
  shows "getPriorityValue (Some p) = Number 5"
proof -
  from assms(1) have "map_of priorities p = None" by (simp add: map_of_eq_None_iff)
  with assms(2) show ?thesis by (simp add: getPriorityValue_def get_property_def)
qed

text \<open>
  Claim C10. The four named priorities map to 1, 5, 10 and 20, and an absent priority
  or a string that names no property gives 5 (the lemmas above). The code departs
  from the claim for a string that names a member of \<^verbatim>\<open>Object.prototype\<close>: the lookup
  finds the inherited member, which is truthy, and returns it instead of 5.
\<close>

theorem getPriorityValue_inherited_member:
  "getPriorityValue (Some ''toString'') = ProtoMember ''toString'' \<and>
   getPriorityValue (Some ''constructor'') = ProtoMember ''constructor'' \<and>
   getPriorityValue (Some ''toString'') \<noteq> Number 5"
  by (simp add: getPriorityValue_def get_property_def priorities_def object_prototype_keys_def)

subsection \<open>The optimizer\<close>

lemma update_fresh: "k \<notin> fst ` set al \<Longrightarrow> AList.update k v al = al @ [(k, v)]"
  by (induction al) auto

lemma wf_fresh: "workers_wf s \<Longrightarrow> nextWorkerId s \<notin> fst ` set (workers s)"
  by (auto simp: workers_wf_def list_all_iff)

lemma optimizeResources_add:
  assumes "workers_wf s" and "adds_worker s"
  shows "optimizeResources s =
           s\<lparr>nextWorkerId := Suc (nextWorkerId s),
             workers := workers s @ [(nextWorkerId s, new_worker (nextWorkerId s))]\<rparr>"
  using assms(2) wf_fresh[OF assms(1)]
  by (simp add: optimizeResources_def adds_worker_def Let_def update_fresh)

lemma optimizeResources_remove:
  assumes "workers_wf s" and "removes_worker s"
  shows "optimizeResources s = s\<lparr>workers := tl (workers s)\<rparr>"
proof -
  from assms(2) obtain k w rest where ws: "workers s = (k, w) # rest"
    by (cases "workers s") (auto simp: removes_worker_def)
  with assms(1) have "worker w = k" and "k \<notin> fst ` set rest"
    by (auto simp: workers_wf_def)
  then have "AList.delete (worker w) (workers s) = rest"
    by (simp add: ws)
  with assms(2) ws show ?thesis
    by (simp add: optimizeResources_def removes_worker_def Let_def)
qed

lemma optimizeResources_idle:
  "\<not> adds_worker s \<Longrightarrow> \<not> removes_worker s \<Longrightarrow> optimizeResources s = s"
  by (auto simp: optimizeResources_def adds_worker_def removes_worker_def Let_def)

lemma adds_removes_exclusive: "adds_worker s \<Longrightarrow> \<not> removes_worker s"
  by (simp add: adds_worker_def removes_worker_def)

lemma optimizeResources_length:
  assumes "workers_wf s"
  shows "length (workers (optimizeResources s)) =
           (if adds_worker s then Suc (length (workers s))
            else if removes_worker s then length (workers s) - 1
            else length (workers s))"
  using assms
  by (simp add: optimizeResources_add optimizeResources_remove optimizeResources_idle)

lemma optimizeResources_cpus: "cpus (optimizeResources s) = cpus s"
  by (simp add: optimizeResources_def Let_def split: list.split)

lemma optimizeResources_wf:
  assumes "workers_wf s"
  shows "workers_wf (optimizeResources s)"
proof (cases "adds_worker s")
  case True
  from assms wf_fresh[OF assms] show ?thesis
    unfolding optimizeResources_add[OF assms True]
    by (auto simp: workers_wf_def list_all_iff new_worker_def)
next
  case False
  show ?thesis
  proof (cases "removes_worker s")
    case True
    from assms show ?thesis
      unfolding optimizeResources_remove[OF assms True]
      by (cases "workers s") (auto simp: workers_wf_def)
  next
    case nr: False
    with False assms show ?thesis by (simp add: optimizeResources_idle)
  qed
qed

lemma optimizeResources_range:
  assumes "workers_wf s" and "1 \<le> length (workers s)" and "length (workers s) \<le> cpus s"
  shows "1 \<le> length (workers (optimizeResources s)) \<and>
         length (workers (optimizeResources s)) \<le> cpus s"
  using assms(2,3) unfolding optimizeResources_length[OF assms(1)]
  by (auto simp: adds_worker_def removes_worker_def)

lemma ticks_range:
  "workers_wf s \<Longrightarrow> 1 \<le> length (workers s) \<Longrightarrow> length (workers s) \<le> cpus s \<Longrightarrow>
   1 \<le> length (workers (ticks cs s)) \<and> length (workers (ticks cs s)) \<le> cpus s"
proof (induction cs arbitrary: s)
  case Nil
  then show ?case by simp
next
  case (Cons c cs)
  let ?s = "s\<lparr>cpuUsage := c\<rparr>"
  have wf: "workers_wf ?s" using Cons.prems(1) by (simp add: workers_wf_def)
  have r: "1 \<le> length (workers ?s)" "length (workers ?s) \<le> cpus ?s"
    using Cons.prems(2,3) by simp_all
  from optimizeResources_range[OF wf r] optimizeResources_wf[OF wf]
    Cons.IH[of "optimizeResources ?s"]
  show ?case by (simp add: optimizeResources_cpus)
qed

text \<open>
  Claim C9. One call of \<^verbatim>\<open>optimizeResources\<close> changes the number of workers by at
  most one: it adds a worker exactly when the cluster is enabled, the process is the
  master, the CPU utilisation exceeds 80 and the count is below \<open>cpus\<close> (the
  \<^verbatim>\<open>maxWorkers\<close> of the source); it removes a worker exactly when the utilisation is
  below 30 and the count is above 1; otherwise the count stays. Hence a count within
  \<open>[1, maxWorkers]\<close> stays there over any sequence of ticks. The hypothesis is the
  shape of the worker table: its keys are distinct ids of workers forked so far.
\<close>

theorem optimizeResources_one_worker_per_tick:
  assumes "workers_wf s"
  shows
    "(length (workers (optimizeResources s)) = Suc (length (workers s)) \<longleftrightarrow>
        cluster_enabled s \<and> isMaster s \<and> cpuUsage s > 80 \<and> length (workers s) < cpus s) \<and>
     (Suc (length (workers (optimizeResources s))) = length (workers s) \<longleftrightarrow>
        cluster_enabled s \<and> isMaster s \<and> cpuUsage s < 30 \<and> length (workers s) > 1) \<and>
     (length (workers (optimizeResources s)) = Suc (length (workers s)) \<or>
      Suc (length (workers (optimizeResources s))) = length (workers s) \<or>
      length (workers (optimizeResources s)) = length (workers s)) \<and>
     (1 \<le> length (workers s) \<and> length (workers s) \<le> cpus s \<longrightarrow>
        (\<forall>cs. 1 \<le> length (workers (ticks cs s)) \<and> length (workers (ticks cs s)) \<le> cpus s))"
proof -
  have len: "length (workers (optimizeResources s)) =
           (if adds_worker s then Suc (length (workers s))
            else if removes_worker s then length (workers s) - 1
            else length (workers s))"
    by (rule optimizeResources_length[OF assms])
  have one: "(length (workers (optimizeResources s)) = Suc (length (workers s)) \<longleftrightarrow> adds_worker s)"
    unfolding len by (auto simp: removes_worker_def)
  have two: "(Suc (length (workers (optimizeResources s))) = length (workers s) \<longleftrightarrow> removes_worker s)"
    unfolding len by (auto simp: adds_worker_def removes_worker_def)
  have three: "length (workers (optimizeResources s)) = Suc (length (workers s)) \<or>
      Suc (length (workers (optimizeResources s))) = length (workers s) \<or>
      length (workers (optimizeResources s)) = length (workers s)"
    unfolding len by (auto simp: removes_worker_def)
  have four: "1 \<le> length (workers s) \<and> length (workers s) \<le> cpus s \<longrightarrow>
        (\<forall>cs. 1 \<le> length (workers (ticks cs s)) \<and> length (workers (ticks cs s)) \<le> cpus s)"
    using ticks_range[OF assms] by blast
  from one two three four show ?thesis
    unfolding adds_worker_def removes_worker_def by blast
qed

theorem optimizeResources_one_worker_per_tick_witness:
  "workers_wf node_alone \<and>
   length (workers node_alone) = 2 \<and>
   length (workers (optimizeResources (node_alone\<lparr>cpuUsage := 90\<rparr>))) = 3 \<and>
   length (workers (optimizeResources node_alone)) = 1 \<and>
   length (workers (optimizeResources (node_alone\<lparr>cpuUsage := 50\<rparr>))) = 2 \<and>
   1 \<le> length (workers (ticks [90, 95, 99, 99, 10, 5, 5, 5] node_alone)) \<and>
   length (workers (ticks [90, 95, 99, 99, 10, 5, 5, 5] node_alone)) \<le> cpus node_alone"
proof -
  have wf: "workers_wf node_alone" by (simp add: workers_wf_def node_alone_def pending_task_def empty_queues_def queueTypes_def new_worker_def)
  have wf90: "workers_wf (node_alone\<lparr>cpuUsage := 90\<rparr>)" using wf by (simp add: workers_wf_def)
  have wf50: "workers_wf (node_alone\<lparr>cpuUsage := 50\<rparr>)" using wf by (simp add: workers_wf_def)
  have f: "cluster_enabled node_alone" "isMaster node_alone" "cpuUsage node_alone = 10"
    "length (workers node_alone) = 2" "cpus node_alone = 4"
    by (simp_all add: node_alone_def pending_task_def empty_queues_def queueTypes_def new_worker_def)
  note T = optimizeResources_one_worker_per_tick[OF wf]
  from T f have a: "length (workers (optimizeResources node_alone)) = 1" by simp
  from T f have "\<forall>cs. 1 \<le> length (workers (ticks cs node_alone)) \<and>
       length (workers (ticks cs node_alone)) \<le> cpus node_alone" by simp
  then have d: "1 \<le> length (workers (ticks [90, 95, 99, 99, 10, 5, 5, 5] node_alone)) \<and>
       length (workers (ticks [90, 95, 99, 99, 10, 5, 5, 5] node_alone)) \<le> cpus node_alone"
    by (rule spec)
  from optimizeResources_one_worker_per_tick[OF wf90] f
  have b: "length (workers (optimizeResources (node_alone\<lparr>cpuUsage := 90\<rparr>))) = 3" by simp
  from optimizeResources_one_worker_per_tick[OF wf50] f
  have c: "length (workers (optimizeResources (node_alone\<lparr>cpuUsage := 50\<rparr>))) = 2" by auto
  from wf f(4) a b c d show ?thesis by blast
qed

end
